theory Spec2Isabelle
  imports Main "HOL-Library.Word"
begin

section \<open>thrill/common/json\_logger.hpp: the data model\<close>

text \<open>
  \<open>JsonLogger\<close> holds the collector stream \<open>oss_\<close> and the elements counter
  \<open>elements_\<close>. The counter is a \<open>size_t\<close>; it is modelled as a natural number,
  because every field after the first puts its separator into \<open>oss_\<close>, so the
  counter stays within the length of the buffer plus one (lemma
  \<open>JsonLine_shl_counter_bound\<close> below) and cannot wrap around. The fields are written
  without the source's trailing underscore (\<open>oss\<close>, \<open>elements\<close>, \<open>logger\<close>), which
  Isabelle does not accept at the end of a name.
\<close>

record JsonLogger =
  oss :: string
  elements :: nat

text \<open>
  A \<open>JsonLine\<close> holds a reference \<open>JsonLogger& logger_\<close>. References are addresses
  into a store of loggers, so that two \<open>JsonLine\<close> objects bound to one logger alias.
\<close>

type_synonym addr = nat

record JsonLine =
  logger :: addr

text \<open>
  Modelled from the spec: the sink. In the source the sink is \<open>std::cout\<close> of the C++
  standard library, which is not part of the repository. The spec describes it as the
  output destination whose write can fail. \<open>written\<close> is the text the destination has
  accepted, \<open>room\<close> the number of characters it still accepts (\<open>None\<close>: no limit),
  \<open>badbit\<close> the error state of the stream. The exception mask of the stream is the
  default one (the source never changes it), so a failed write raises nothing.
\<close>

record ostream =
  written :: string
  badbit :: bool
  room :: "nat option"

record world =
  heap :: "addr \<Rightarrow> JsonLogger"
  cout :: ostream

text \<open>The one failure of the source: \<open>assert\<close> in the destructor of \<open>JsonLine\<close>.\<close>

datatype error = AssertionFailed

text \<open>
  The types for which the source has an overload of \<open>Put\<close>. \<open>int\<close> and
  \<open>unsigned int\<close> are 32 bits wide, \<open>long\<close> and \<open>unsigned long\<close> 64 bits (LP64).
  The type \<open>'d\<close> stands for \<open>double\<close>. \<open>JCStr bs\<close> is a \<open>const char*\<close> that
  points to the characters \<open>bs\<close> followed by the terminating NUL; \<open>JCharArray bs\<close> is
  a character array \<open>char[N]\<close> holding \<open>bs\<close> followed by the terminating NUL, as a
  string literal is (\<open>N = length bs + 1\<close>); \<open>bs\<close> itself may contain further NUL
  characters. \<open>JString s\<close> is a \<open>std::string\<close>, which knows its length.
\<close>

datatype 'd json_value =
    JBool bool
  | JInt "32 word"
  | JUInt "32 word"
  | JLong "64 word"
  | JULong "64 word"
  | JDouble 'd
  | JCStr string
  | JCharArray string
  | JString string
  | JVector "'d json_value list"

section \<open>The standard library's stream insertions\<close>

definition ostream_write :: "string \<Rightarrow> ostream \<Rightarrow> ostream" where
  \<comment> \<open>Modelled from the spec: \<open>os << s\<close> on the sink (\<open>std::ostream\<close> is not in the
      repository). A stream in its error state ignores the insertion; a destination
      that cannot take all of \<open>s\<close> takes what fits and the stream enters the error
      state.\<close>
  "ostream_write s os =
     (if badbit os then os
      else case room os of
        None \<Rightarrow> os\<lparr>written := written os @ s\<rparr>
      | Some r \<Rightarrow>
          if length s \<le> r
          then os\<lparr>written := written os @ s, room := Some (r - length s)\<rparr>
          else os\<lparr>written := written os @ take r s, badbit := True, room := Some 0\<rparr>)"

definition endl :: "ostream \<Rightarrow> ostream" where
  \<comment> \<open>\<open>os << std::endl\<close>: the newline character, then a flush of the stream.\<close>
  "endl os = ostream_write [CHR 0x0A] os"

definition digit :: "nat \<Rightarrow> char" where
  "digit d = char_of (48 + d)"

fun dec_nat :: "nat \<Rightarrow> string" where
  "dec_nat n = (if n < 10 then [digit n] else dec_nat (n div 10) @ [digit (n mod 10)])"

declare dec_nat.simps [simp del]

definition dec_int :: "int \<Rightarrow> string" where
  \<comment> \<open>Modelled from the spec: the insertion of an integer into a \<open>std::ostream\<close> is
      not in the repository. The spec: decimal ASCII digits, no leading zeros, sign
      only if negative.\<close>
  "dec_int i = (if i < 0 then CHR ''-'' # dec_nat (nat (- i)) else dec_nat (nat i))"

definition oss_put :: "JsonLine \<Rightarrow> string \<Rightarrow> world \<Rightarrow> world" where
  \<comment> \<open>\<open>logger_.oss_ << s\<close>: the text goes to the end of the logger's collector stream.\<close>
  "oss_put line s w =
     w\<lparr>heap := (heap w)(logger line :=
          (heap w (logger line))\<lparr>oss := oss (heap w (logger line)) @ s\<rparr>)\<rparr>"

section \<open>JsonLogger::Output and the members of JsonLine\<close>

definition Output :: "addr \<Rightarrow> world \<Rightarrow> world" where
  \<comment> \<open>\<open>std::cout << '{' << oss_.str() << '}' << std::endl;\<close> The method returns
      \<open>void\<close> and does not look at the state of the stream.\<close>
  "Output this w =
     w\<lparr>cout := endl (ostream_write ''}'' (ostream_write (oss (heap w this))
                 (ostream_write ''{'' (cout w))))\<rparr>"

definition JsonLine_ctor :: "addr \<Rightarrow> JsonLine" where
  \<comment> \<open>\<open>explicit JsonLine(JsonLogger& logger) : logger_(logger) { }\<close>\<close>
  "JsonLine_ctor lg = \<lparr>logger = lg\<rparr>"

definition JsonLine_move :: "JsonLine \<Rightarrow> JsonLine" where
  \<comment> \<open>\<open>JsonLine(JsonLine&&) = default;\<close> The defaulted move constructor initialises
      each member from the source's member: the new reference is bound to the same
      logger. The source object is not changed and its destructor still runs.\<close>
  "JsonLine_move other = \<lparr>logger = logger other\<rparr>"

definition JsonLine_dtor :: "JsonLine \<Rightarrow> world \<Rightarrow> (error + unit) \<times> world" where
  \<comment> \<open>\<open>~JsonLine() { assert(logger_.elements_ % 2 == 0); logger_.Output(); }\<close>
      A failed assertion aborts the process in the world it is in.\<close>
  "JsonLine_dtor line w =
     (if elements (heap w (logger line)) mod 2 = 0
      then (Inr (), Output (logger line) w)
      else (Inl AssertionFailed, w))"

definition PutSeparator :: "JsonLine \<Rightarrow> world \<Rightarrow> world" where
  "PutSeparator line w =
     (let w1 = (if elements (heap w (logger line)) > 0
                then oss_put line
                       [if elements (heap w (logger line)) mod 2 = 0
                        then CHR '','' else CHR '':''] w
                else w)
      in w1\<lparr>heap := (heap w1)(logger line :=
               (heap w1 (logger line))\<lparr>elements := elements (heap w1 (logger line)) + 1\<rparr>)\<rparr>)"

definition PutEscapedChar :: "JsonLine \<Rightarrow> char \<Rightarrow> world \<Rightarrow> world" where
  "PutEscapedChar line ch w =
     (if ch = CHR 0x5C then oss_put line [CHR 0x5C] (oss_put line [CHR 0x5C] w)
      else if ch = CHR 0x22 then oss_put line [CHR 0x22] (oss_put line [CHR 0x5C] w)
      else if ch = CHR ''/'' then oss_put line [CHR ''/''] (oss_put line [CHR 0x5C] w)
      else if ch = CHR 0x08 then oss_put line [CHR ''b''] (oss_put line [CHR 0x5C] w)
      else if ch = CHR 0x0C then oss_put line [CHR ''f''] (oss_put line [CHR 0x5C] w)
      else if ch = CHR 0x0A then oss_put line [CHR ''n''] (oss_put line [CHR 0x5C] w)
      else if ch = CHR 0x0D then oss_put line [CHR ''r''] (oss_put line [CHR 0x5C] w)
      else if ch = CHR 0x09 then oss_put line [CHR ''t''] (oss_put line [CHR 0x5C] w)
      else oss_put line [ch] w)"

section \<open>The overloads of Put\<close>

fun Put_cstr_loop :: "JsonLine \<Rightarrow> string \<Rightarrow> world \<Rightarrow> world" where
  \<comment> \<open>\<open>for (const char* s = str; *s; ++s) line.PutEscapedChar(*s);\<close> The empty list
      is the terminating NUL that follows the characters.\<close>
  "Put_cstr_loop line [] w = w"
| "Put_cstr_loop line (c # cs) w =
     (if c = CHR 0x00 then w else Put_cstr_loop line cs (PutEscapedChar line c w))"

fun Put_string_loop :: "JsonLine \<Rightarrow> string \<Rightarrow> world \<Rightarrow> world" where
  \<comment> \<open>\<open>for (i = str.begin(); i != str.end(); ++i) line.PutEscapedChar(*i);\<close>\<close>
  "Put_string_loop line [] w = w"
| "Put_string_loop line (c # cs) w = Put_string_loop line cs (PutEscapedChar line c w)"

fun ArrayToPointerDecay :: "'d json_value \<Rightarrow> 'd json_value" where
  \<comment> \<open>\<open>static_cast<Decayed>(t)\<close>: an array becomes the pointer to its first element,
      every other type is kept.\<close>
  "ArrayToPointerDecay (JCharArray bs) = JCStr bs"
| "ArrayToPointerDecay v = v"

text \<open>
  \<open>Put\<close> takes the text that the stream insertion of a \<open>double\<close> produces as the
  parameter \<open>fd\<close>: it is decided by the standard library and the stream's
  precision, not by the repository. \<open>ostream_double\<close> below is the library's default,
  on the bit patterns of the values. In the loop over a vector, \<open>first\<close> is the test
  \<open>it == vec.begin()\<close>. A character array given to \<open>Put\<close> directly selects the
  overload for \<open>const char*\<close> (the array-to-pointer conversion of overload
  resolution), so it has the same equation as \<open>JCStr\<close>.
\<close>

function Put :: "('d \<Rightarrow> string) \<Rightarrow> JsonLine \<Rightarrow> 'd json_value \<Rightarrow> world \<Rightarrow> world"
  and PutDecay :: "('d \<Rightarrow> string) \<Rightarrow> JsonLine \<Rightarrow> 'd json_value \<Rightarrow> world \<Rightarrow> world"
  and Put_vector_loop ::
    "('d \<Rightarrow> string) \<Rightarrow> JsonLine \<Rightarrow> bool \<Rightarrow> 'd json_value list \<Rightarrow> world \<Rightarrow> world"
where
  "Put fd line (JBool v) w = oss_put line (if v then ''true'' else ''false'') w"
| "Put fd line (JInt v) w = oss_put line (dec_int (sint v)) w"
| "Put fd line (JUInt v) w = oss_put line (dec_int (uint v)) w"
| "Put fd line (JLong v) w = oss_put line (dec_int (sint v)) w"
| "Put fd line (JULong v) w = oss_put line (dec_int (uint v)) w"
| "Put fd line (JDouble v) w = oss_put line (fd v) w"
| "Put fd line (JCStr str) w =
     oss_put line [CHR 0x22] (Put_cstr_loop line str (oss_put line [CHR 0x22] w))"
| "Put fd line (JCharArray str) w =
     oss_put line [CHR 0x22] (Put_cstr_loop line str (oss_put line [CHR 0x22] w))"
| "Put fd line (JString str) w =
     oss_put line [CHR 0x22] (Put_string_loop line str (oss_put line [CHR 0x22] w))"
| "Put fd line (JVector vec) w =
     oss_put line '']'' (Put_vector_loop fd line True vec (oss_put line ''['' w))"
| "PutDecay fd line t w = Put fd line (ArrayToPointerDecay t) w"
| "Put_vector_loop fd line first [] w = w"
| "Put_vector_loop fd line first (v # vs) w =
     Put_vector_loop fd line False vs
       (PutDecay fd line v (if first then w else oss_put line '','' w))"
  by pat_completeness auto

termination
proof (relation "measure (\<lambda>x. case x of
            Inl (fd, line, v, w) \<Rightarrow> 2 * size v
          | Inr (Inl (fd, line, t, w)) \<Rightarrow> 2 * size t + 1
          | Inr (Inr (fd, line, first, vs, w)) \<Rightarrow> 2 * size_list size vs + 1)",
       goal_cases)
  case (3 fd line t w)
  have "size (ArrayToPointerDecay t) = size t"
    by (cases t) simp_all
  then show ?case by simp
qed simp_all

definition JsonLine_shl ::
  "('d \<Rightarrow> string) \<Rightarrow> JsonLine \<Rightarrow> 'd json_value \<Rightarrow> world \<Rightarrow> world" where
  \<comment> \<open>\<open>JsonLine::operator <<\<close>: \<open>PutSeparator(); return PutDecay(t);\<close> The
      reference it returns is the line itself.\<close>
  "JsonLine_shl fd line t w = PutDecay fd line t (PutSeparator line w)"

fun shl_chain ::
  "('d \<Rightarrow> string) \<Rightarrow> JsonLine \<Rightarrow> 'd json_value list \<Rightarrow> world \<Rightarrow> world" where
  \<comment> \<open>The chained expression \<open>line << t1 << t2 << ...\<close>, evaluated left to right.\<close>
  "shl_chain fd line [] w = w"
| "shl_chain fd line (t # ts) w = shl_chain fd line ts (JsonLine_shl fd line t w)"

section \<open>JsonLogger::line and JsonLogger::operator <<\<close>

text \<open>
  \<open>now\<close> is the value of
  \<open>duration_cast<microseconds>(steady_clock::now().time_since_epoch()).count()\<close>, a
  \<open>long\<close>. The local \<open>out\<close> is returned as the result object itself (the return
  value optimisation, which GCC and Clang apply to \<open>return out;\<close>): no move
  constructor and no destructor runs at the return. What happens when a line is moved
  is modelled by \<open>JsonLine_move\<close>, \<open>return_by_move\<close> and \<open>scope_with_move\<close>.
\<close>

definition JsonLogger_line ::
  "('d \<Rightarrow> string) \<Rightarrow> addr \<Rightarrow> 64 word \<Rightarrow> world \<Rightarrow> JsonLine \<times> world" where
  \<comment> \<open>\<open>oss_.str(""); elements_ = 0; JsonLine out(*this); out << "ts" << now;
      return out;\<close>\<close>
  "JsonLogger_line fd this now w =
     (let w1 = w\<lparr>heap := (heap w)(this := (heap w this)\<lparr>oss := []\<rparr>)\<rparr>;
          w2 = w1\<lparr>heap := (heap w1)(this := (heap w1 this)\<lparr>elements := 0\<rparr>)\<rparr>;
          out = JsonLine_ctor this;
          w3 = JsonLine_shl fd out (JCharArray ''ts'') w2;
          w4 = JsonLine_shl fd out (JLong now) w3
      in (out, w4))"

definition JsonLogger_shl ::
  "('d \<Rightarrow> string) \<Rightarrow> addr \<Rightarrow> 64 word \<Rightarrow> 'd json_value \<Rightarrow> world \<Rightarrow> JsonLine \<times> world" where
  \<comment> \<open>\<open>JsonLine out = line(); out << t; return out;\<close>\<close>
  "JsonLogger_shl fd this now t w =
     (let (out, w1) = JsonLogger_line fd this now w;
          w2 = JsonLine_shl fd out t w1
      in (out, w2))"

section \<open>Lifetimes of JsonLine objects\<close>

fun destroy_all :: "JsonLine list \<Rightarrow> world \<Rightarrow> (error + unit) \<times> world" where
  \<comment> \<open>The end of a scope: the destructors of its objects run one after the other
      (the list is in the order of destruction); an abort ends the run.\<close>
  "destroy_all [] w = (Inr (), w)"
| "destroy_all (line # lines) w =
     (case JsonLine_dtor line w of
        (Inl e, w') \<Rightarrow> (Inl e, w')
      | (Inr u, w') \<Rightarrow> destroy_all lines w')"

definition return_by_move :: "JsonLine \<Rightarrow> world \<Rightarrow> (error + JsonLine) \<times> world" where
  \<comment> \<open>\<open>return out;\<close> when the move is not elided: the result object is
      move-constructed from \<open>out\<close>, then \<open>out\<close> is destroyed.\<close>
  "return_by_move out w =
     (let result = JsonLine_move out
      in case JsonLine_dtor out w of
           (Inl e, w') \<Rightarrow> (Inl e, w')
         | (Inr u, w') \<Rightarrow> (Inr result, w'))"

definition scope_with_move ::
  "('d \<Rightarrow> string) \<Rightarrow> addr \<Rightarrow> 64 word \<Rightarrow> world \<Rightarrow> (error + unit) \<times> world" where
  \<comment> \<open>\<open>{ JsonLine a = logger.line(); JsonLine b(std::move(a)); }\<close>: at the closing
      brace \<open>b\<close> is destroyed, then \<open>a\<close>.\<close>
  "scope_with_move fd lg now w =
     (let (a, w1) = JsonLogger_line fd lg now w;
          b = JsonLine_move a
      in destroy_all [b, a] w1)"

definition empty_world :: world where
  \<comment> \<open>Every logger as its constructor leaves it, and a sink that has taken nothing
      yet and takes everything.\<close>
  "empty_world =
     \<lparr>heap = (\<lambda>a. \<lparr>oss = [], elements = 0\<rparr>),
      cout = \<lparr>written = [], badbit = False, room = None\<rparr>\<rparr>"

definition Put_text :: "('d \<Rightarrow> string) \<Rightarrow> 'd json_value \<Rightarrow> string" where
  \<comment> \<open>The text that \<open>PutDecay\<close> leaves in an empty collector stream.\<close>
  "Put_text fd t = oss (heap (PutDecay fd (JsonLine_ctor 0) t empty_world) 0)"

section \<open>The encoding rules as the specification words them\<close>

definition escaping_table :: "(char \<times> string) list" where
  "escaping_table =
     [(CHR 0x5C, [CHR 0x5C, CHR 0x5C]),
      (CHR 0x22, [CHR 0x5C, CHR 0x22]),
      (CHR ''/'', [CHR 0x5C, CHR ''/'']),
      (CHR 0x08, [CHR 0x5C, CHR ''b'']),
      (CHR 0x0C, [CHR 0x5C, CHR ''f'']),
      (CHR 0x0A, [CHR 0x5C, CHR ''n'']),
      (CHR 0x0D, [CHR 0x5C, CHR ''r'']),
      (CHR 0x09, [CHR 0x5C, CHR ''t''])]"

definition escape :: "char \<Rightarrow> string" where
  \<comment> \<open>A character of the table gives its entry, any other character itself.\<close>
  "escape c = (case map_of escaping_table c of Some e \<Rightarrow> e | None \<Rightarrow> [c])"

definition quoted :: "string \<Rightarrow> string" where
  "quoted s = [CHR 0x22] @ concat (map escape s) @ [CHR 0x22]"

fun commas :: "string list \<Rightarrow> string" where
  \<comment> \<open>The texts in their order, one comma between two neighbours.\<close>
  "commas [] = []"
| "commas [x] = x"
| "commas (x # y # ys) = x @ '','' @ commas (y # ys)"

definition c_str :: "string \<Rightarrow> string" where
  \<comment> \<open>The characters strictly before the first NUL.\<close>
  "c_str bs = takeWhile (\<lambda>c. c \<noteq> CHR 0x00) bs"

fun encode :: "('d \<Rightarrow> string) \<Rightarrow> 'd json_value \<Rightarrow> string" where
  "encode fd (JBool v) = (if v then ''true'' else ''false'')"
| "encode fd (JInt v) = dec_int (sint v)"
| "encode fd (JUInt v) = dec_int (uint v)"
| "encode fd (JLong v) = dec_int (sint v)"
| "encode fd (JULong v) = dec_int (uint v)"
| "encode fd (JDouble v) = fd v"
| "encode fd (JCStr bs) = quoted (c_str bs)"
| "encode fd (JCharArray bs) = quoted (c_str bs)"
| "encode fd (JString s) = quoted s"
| "encode fd (JVector vs) = ''['' @ commas (map (encode fd) vs) @ '']''"

fun pairs_text :: "('d \<Rightarrow> string) \<Rightarrow> ('d json_value \<times> 'd json_value) list \<Rightarrow> string" where
  \<comment> \<open>The spec's \<open>[,"<key>":<value>]*\<close>: each pair as \<open>,key:value\<close>.\<close>
  "pairs_text fd [] = []"
| "pairs_text fd ((k, v) # kvs) =
     '','' @ encode fd k @ '':'' @ encode fd v @ pairs_text fd kvs"

fun fields :: "('a \<times> 'a) list \<Rightarrow> 'a list" where
  \<comment> \<open>The fields of a list of pairs, in the order they are appended.\<close>
  "fields [] = []"
| "fields ((k, v) # kvs) = k # v # fields kvs"

fun rest_text :: "('d \<Rightarrow> string) \<Rightarrow> 'd json_value list \<Rightarrow> string" where
  \<comment> \<open>The elements of a vector after the first one: each with its comma in front.\<close>
  "rest_text fd [] = []"
| "rest_text fd (v # vs) = '','' @ encode fd v @ rest_text fd vs"

definition ts_text :: "64 word \<Rightarrow> string" where
  \<comment> \<open>The spec's \<open>"ts":<int64-microseconds>\<close>.\<close>
  "ts_text now = [CHR 0x22] @ ''ts'' @ [CHR 0x22] @ '':'' @ dec_int (sint now)"

definition record_text ::
  "('d \<Rightarrow> string) \<Rightarrow> 64 word \<Rightarrow> ('d json_value \<times> 'd json_value) list \<Rightarrow> string" where
  \<comment> \<open>The spec's record \<open>{"ts":<int64-microseconds>[,"<key>":<value>]*}\<close>, without
      the line terminator.\<close>
  "record_text fd now kvs = ''{'' @ ts_text now @ pairs_text fd kvs @ ''}''"

section \<open>A standard decoder for JSON strings\<close>

text \<open>
  Modelled from the spec: the standard JSON decoder that the spec's round trip refers
  to is not in the repository. This is the string production of RFC 8259, section 7,
  on bytes: a string is a quotation mark, characters, a quotation mark; a character is
  unescaped or a backslash followed by one of \<open>" \ / b f n r t\<close> or by \<open>u\<close> and
  four hexadecimal digits (a code point, given as UTF-8; a surrogate must come as a
  pair, since a lone one has no UTF-8 form). An unescaped character is an ASCII byte from 0x20 up, except quotation mark
  and backslash, or a well-formed UTF-8 sequence (RFC 3629: two to four bytes, no
  overlong form, no surrogate, nothing above U+10FFFF), which is kept as it is; any
  other byte from 0x80 up makes the text invalid.
\<close>

definition unescape_char :: "char \<Rightarrow> char option" where
  \<comment> \<open>Modelled from the spec: the two-character escapes of a JSON string (the decoder
      is not in the repository).\<close>
  "unescape_char e =
     map_of [(CHR 0x22, CHR 0x22), (CHR 0x5C, CHR 0x5C), (CHR ''/'', CHR ''/''),
             (CHR ''b'', CHR 0x08), (CHR ''f'', CHR 0x0C), (CHR ''n'', CHR 0x0A),
             (CHR ''r'', CHR 0x0D), (CHR ''t'', CHR 0x09)] e"

definition hex_val :: "char \<Rightarrow> nat option" where
  "hex_val c =
     (let n = (of_char c :: nat)
      in if 48 \<le> n \<and> n \<le> 57 then Some (n - 48)
         else if 65 \<le> n \<and> n \<le> 70 then Some (n - 55)
         else if 97 \<le> n \<and> n \<le> 102 then Some (n - 87)
         else None)"

fun hex4 :: "string \<Rightarrow> nat option" where
  "hex4 [a, b, c, d] =
     (case (hex_val a, hex_val b, hex_val c, hex_val d) of
        (Some x, Some y, Some z, Some u) \<Rightarrow> Some (((x * 16 + y) * 16 + z) * 16 + u)
      | _ \<Rightarrow> None)"
| "hex4 s = None"

definition utf8 :: "nat \<Rightarrow> string" where
  "utf8 n =
     (if n < 0x80 then [char_of n]
      else if n < 0x800 then [char_of (0xC0 + n div 64), char_of (0x80 + n mod 64)]
      else if n < 0x10000 then
        [char_of (0xE0 + n div 4096), char_of (0x80 + n div 64 mod 64),
         char_of (0x80 + n mod 64)]
      else
        [char_of (0xF0 + n div 262144), char_of (0x80 + n div 4096 mod 64),
         char_of (0x80 + n div 64 mod 64), char_of (0x80 + n mod 64)])"

definition utf8_cont :: "char \<Rightarrow> bool" where
  \<comment> \<open>A continuation byte of UTF-8.\<close>
  "utf8_cont b = (0x80 \<le> (of_char b :: nat) \<and> (of_char b :: nat) \<le> 0xBF)"

definition utf8_lead2 :: "char \<Rightarrow> char \<Rightarrow> bool" where
  \<comment> \<open>The first two bytes of a two-byte sequence.\<close>
  "utf8_lead2 a b = (0xC2 \<le> (of_char a :: nat) \<and> (of_char a :: nat) \<le> 0xDF \<and> utf8_cont b)"

definition utf8_lead3 :: "char \<Rightarrow> char \<Rightarrow> bool" where
  \<comment> \<open>The first two bytes of a three-byte sequence: no overlong form after 0xE0, no
      surrogate after 0xED.\<close>
  "utf8_lead3 a b =
     (let x = (of_char a :: nat); y = (of_char b :: nat)
      in (x = 0xE0 \<and> 0xA0 \<le> y \<and> y \<le> 0xBF) \<or>
         (0xE1 \<le> x \<and> x \<le> 0xEC \<and> utf8_cont b) \<or>
         (x = 0xED \<and> 0x80 \<le> y \<and> y \<le> 0x9F) \<or>
         (0xEE \<le> x \<and> x \<le> 0xEF \<and> utf8_cont b))"

definition utf8_lead4 :: "char \<Rightarrow> char \<Rightarrow> bool" where
  \<comment> \<open>The first two bytes of a four-byte sequence: no overlong form after 0xF0,
      nothing above U+10FFFF after 0xF4.\<close>
  "utf8_lead4 a b =
     (let x = (of_char a :: nat); y = (of_char b :: nat)
      in (x = 0xF0 \<and> 0x90 \<le> y \<and> y \<le> 0xBF) \<or>
         (0xF1 \<le> x \<and> x \<le> 0xF3 \<and> utf8_cont b) \<or>
         (x = 0xF4 \<and> 0x80 \<le> y \<and> y \<le> 0x8F))"

fun utf8_split :: "string \<Rightarrow> (string \<times> string) option" where
  \<comment> \<open>Modelled from the spec: the well-formed multi-byte UTF-8 sequence at the head
      of a text and the rest of the text (the decoder is not in the repository);
      \<open>None\<close> when the text does not start with one.\<close>
  "utf8_split (a # b # c # d # r) =
     (if utf8_lead2 a b then Some ([a, b], c # d # r)
      else if utf8_lead3 a b \<and> utf8_cont c then Some ([a, b, c], d # r)
      else if utf8_lead4 a b \<and> utf8_cont c \<and> utf8_cont d then Some ([a, b, c, d], r)
      else None)"
| "utf8_split [a, b, c] =
     (if utf8_lead2 a b then Some ([a, b], [c])
      else if utf8_lead3 a b \<and> utf8_cont c then Some ([a, b, c], [])
      else None)"
| "utf8_split [a, b] = (if utf8_lead2 a b then Some ([a, b], []) else None)"
| "utf8_split s = None"

function json_unescape :: "string \<Rightarrow> string option" where
  \<comment> \<open>Modelled from the spec: the characters between the quotation marks of a JSON
      string, decoded (the decoder is not in the repository); \<open>None\<close> when the text
      is not a JSON string.\<close>
  "json_unescape [] = Some []"
| "json_unescape (c # cs) =
     (if c = CHR 0x5C then
        (case cs of
           [] \<Rightarrow> None
         | e # r \<Rightarrow>
             if e = CHR ''u'' then
               (case hex4 (take 4 r) of
                  None \<Rightarrow> None
                | Some n \<Rightarrow>
                    if 0xD800 \<le> n \<and> n < 0xDC00 then
                      (case drop 4 r of
                         b # u # r2 \<Rightarrow>
                           if b = CHR 0x5C \<and> u = CHR ''u'' then
                             (case hex4 (take 4 r2) of
                                None \<Rightarrow> None
                              | Some m \<Rightarrow>
                                  if 0xDC00 \<le> m \<and> m < 0xE000 then
                                    map_option
                                      ((@) (utf8 (0x10000 + (n - 0xD800) * 1024 + (m - 0xDC00))))
                                      (json_unescape (drop 4 r2))
                                  else None)
                           else None
                       | _ \<Rightarrow> None)
                    else if 0xDC00 \<le> n \<and> n < 0xE000 then None
                    else map_option ((@) (utf8 n)) (json_unescape (drop 4 r)))
             else
               (case unescape_char e of
                  None \<Rightarrow> None
                | Some d \<Rightarrow> map_option ((#) d) (json_unescape r)))
      else if c = CHR 0x22 \<or> (of_char c :: nat) < 0x20 then None
      else if (of_char c :: nat) < 0x80 then map_option ((#) c) (json_unescape cs)
      else
        (case utf8_split (c # cs) of
           None \<Rightarrow> None
         | Some (q, r) \<Rightarrow> map_option ((@) q) (json_unescape r)))"
  by pat_completeness auto

termination
proof (relation "measure length", goal_cases)
  case (2 c cs e r n b r1 u r2 m)
  from \<open>drop 4 r = b # r1\<close> \<open>r1 = u # r2\<close>
  have "length (drop 4 r) = Suc (Suc (length r2))" by simp
  then have "length r2 < length r" unfolding length_drop by arith
  then show ?case using \<open>cs = e # r\<close> by simp
next
  case (6 c cs x q r)
  from \<open>utf8_split (c # cs) = Some x\<close> \<open>(q, r) = x\<close>
  have "length r < length (c # cs)"
    by (cases "c # cs" rule: utf8_split.cases) (auto split: if_splits)
  then show ?case by simp
qed simp_all

declare json_unescape.simps(2) [simp del]

function well_formed_utf8 :: "string \<Rightarrow> bool" where
  \<comment> \<open>The text is well-formed UTF-8: ASCII bytes and well-formed multi-byte
      sequences.\<close>
  "well_formed_utf8 [] = True"
| "well_formed_utf8 (c # cs) =
     (if (of_char c :: nat) < 0x80 then well_formed_utf8 cs
      else
        (case utf8_split (c # cs) of
           None \<Rightarrow> False
         | Some (q, r) \<Rightarrow> well_formed_utf8 r))"
  by pat_completeness auto

termination
proof (relation "measure length", goal_cases)
  case (3 c cs x q r)
  from \<open>utf8_split (c # cs) = Some x\<close> \<open>(q, r) = x\<close>
  have "length r < length (c # cs)"
    by (cases "c # cs" rule: utf8_split.cases) (auto split: if_splits)
  then show ?case by simp
qed simp_all

declare well_formed_utf8.simps(2) [simp del]

definition json_decode_string :: "string \<Rightarrow> string option" where
  \<comment> \<open>Modelled from the spec: the standard JSON decoder, on a string (the decoder is
      not in the repository).\<close>
  "json_decode_string s =
     (case s of
        [] \<Rightarrow> None
      | q # r \<Rightarrow>
          if q = CHR 0x22 \<and> r \<noteq> [] \<and> last r = CHR 0x22
          then json_unescape (butlast r) else None)"

section \<open>The stream insertion of a double\<close>

text \<open>
  Modelled from the spec: the insertion of a \<open>double\<close> into a \<open>std::ostream\<close> is not
  in the repository. The spec asks for a decimal representation of the value. What the
  stream of the source does is the documented default of the library, which \<open>Put\<close>
  never changes: the conversion \<open>%g\<close> with precision 6 in the classic locale, rounded
  to nearest with ties to even. A \<open>double\<close> is its IEEE 754 pattern of 64 bits: the
  sign, 11 bits of biased exponent, 52 bits of fraction.
\<close>

definition double_sign :: "64 word \<Rightarrow> bool" where
  \<comment> \<open>Bit 63.\<close>
  "double_sign d = (2 ^ 63 \<le> unat d)"

definition double_exponent :: "64 word \<Rightarrow> nat" where
  \<comment> \<open>Bits 52 to 62.\<close>
  "double_exponent d = unat d div 2 ^ 52 mod 2 ^ 11"

definition double_fraction :: "64 word \<Rightarrow> nat" where
  \<comment> \<open>Bits 0 to 51.\<close>
  "double_fraction d = unat d mod 2 ^ 52"

definition double_magnitude :: "64 word \<Rightarrow> nat \<times> nat" where
  \<comment> \<open>The absolute value of a finite \<open>double\<close> as numerator and denominator:
      subnormal with exponent field 0, normal otherwise.\<close>
  "double_magnitude d =
     (let E = double_exponent d; F = double_fraction d
      in if E = 0 then (F, 2 ^ 1074)
         else if 1075 \<le> E then ((2 ^ 52 + F) * 2 ^ (E - 1075), 1)
         else (2 ^ 52 + F, 2 ^ (1075 - E)))"

function exp10_up :: "nat \<Rightarrow> nat \<Rightarrow> nat" where
  \<comment> \<open>For \<open>b \<le> a\<close>: the largest \<open>k\<close> with \<open>b * 10 ^ k \<le> a\<close>.\<close>
  "exp10_up a b = (if b = 0 \<or> a < 10 * b then 0 else Suc (exp10_up a (10 * b)))"
  by pat_completeness auto

termination
  by (relation "measure (\<lambda>(a, b). a - b)") auto

function exp10_down :: "nat \<Rightarrow> nat \<Rightarrow> nat" where
  \<comment> \<open>For \<open>0 < a < b\<close>: the least \<open>k\<close> with \<open>b \<le> a * 10 ^ k\<close>.\<close>
  "exp10_down a b = (if a = 0 \<or> b \<le> a then 0 else Suc (exp10_down (10 * a) b))"
  by pat_completeness auto

termination
  by (relation "measure (\<lambda>(a, b). b - a)") auto

declare exp10_up.simps [simp del] exp10_down.simps [simp del]

definition decimal_exponent :: "nat \<Rightarrow> nat \<Rightarrow> int" where
  \<comment> \<open>The decimal exponent of \<open>a / b\<close>: the \<open>X\<close> with \<open>10 ^ X \<le> a / b < 10 ^ (X + 1)\<close>.\<close>
  "decimal_exponent a b = (if b \<le> a then int (exp10_up a b) else - int (exp10_down a b))"

definition round_half_even :: "nat \<Rightarrow> nat \<Rightarrow> nat" where
  \<comment> \<open>\<open>n / d\<close> rounded to the nearest natural number, a tie to the even one.\<close>
  "round_half_even n d =
     (let q = n div d; r = n mod d
      in if 2 * r < d then q
         else if d < 2 * r then q + 1
         else if even q then q else q + 1)"

definition significand6 :: "nat \<Rightarrow> nat \<Rightarrow> nat \<times> int" where
  \<comment> \<open>\<open>a / b\<close> rounded to six significant decimal digits: the six digits as a number
      and the decimal exponent of the rounded value.\<close>
  "significand6 a b =
     (let X = decimal_exponent a b;
          r = (if X \<le> 5 then round_half_even (a * 10 ^ nat (5 - X)) b
               else round_half_even a (b * 10 ^ nat (X - 5)))
      in if r = 1000000 then (100000, X + 1) else (r, X))"

definition strip_zeros :: "string \<Rightarrow> string" where
  \<comment> \<open>\<open>%g\<close> removes the zeros at the end of the fraction.\<close>
  "strip_zeros s = rev (dropWhile (\<lambda>c. c = CHR ''0'') (rev s))"

definition with_point :: "string \<Rightarrow> string \<Rightarrow> string" where
  \<comment> \<open>Integer part and fraction; no decimal point when no fraction is left.\<close>
  "with_point i f = (if strip_zeros f = [] then i else i @ ''.'' @ strip_zeros f)"

definition g_layout :: "nat \<times> int \<Rightarrow> string" where
  \<comment> \<open>\<open>%g\<close> with precision 6 for the six digits \<open>r\<close> and the exponent \<open>X\<close>: the
      exponent form when \<open>X < -4\<close> or \<open>6 \<le> X\<close> (at least two digits of exponent), the
      fixed form otherwise.\<close>
  "g_layout rx =
     (let r = fst rx; X = snd rx; ds = dec_nat r
      in if X < - 4 \<or> 6 \<le> X then
           with_point (take 1 ds) (drop 1 ds) @ ''e'' @ (if X < 0 then ''-'' else ''+'') @
           (if \<bar>X\<bar> < 10 then ''0'' else []) @ dec_nat (nat \<bar>X\<bar>)
         else if 0 \<le> X then with_point (take (nat X + 1) ds) (drop (nat X + 1) ds)
         else with_point ''0'' (replicate (nat (- X - 1)) (CHR ''0'') @ ds))"

definition ostream_double :: "64 word \<Rightarrow> string" where
  \<comment> \<open>Modelled from the spec: \<open>os << value\<close> for a \<open>double\<close> on a stream with the
      default flags and precision (the library is not in the repository).\<close>
  "ostream_double d =
     (if double_sign d then ''-'' else []) @
     (if double_exponent d = 2047
      then (if double_fraction d = 0 then ''inf'' else ''nan'')
      else if fst (double_magnitude d) = 0 then ''0''
      else g_layout (significand6 (fst (double_magnitude d)) (snd (double_magnitude d))))"

definition digits_value :: "string \<Rightarrow> nat" where
  \<comment> \<open>The number that a text of decimal digits denotes.\<close>
  "digits_value s = foldl (\<lambda>v c. 10 * v + (of_char c - 48)) 0 s"

definition double_finite_nonzero :: "64 word \<Rightarrow> bool" where
  "double_finite_nonzero d = (double_exponent d \<noteq> 2047 \<and> fst (double_magnitude d) \<noteq> 0)"

definition double_six_digits :: "64 word \<Rightarrow> bool \<times> nat \<times> int" where
  \<comment> \<open>Sign, six significant digits and decimal exponent of a finite \<open>double\<close> that
      is not zero.\<close>
  "double_six_digits d =
     (double_sign d, significand6 (fst (double_magnitude d)) (snd (double_magnitude d)))"

section \<open>The stream insertions of the source, as texts\<close>

lemma oss_put_Nil: "oss_put line [] w = w"
  by (simp add: oss_put_def)

lemma oss_put_oss_put: "oss_put line t (oss_put line s w) = oss_put line (s @ t) w"
  by (simp add: oss_put_def)

lemma PutEscapedChar_escape: "PutEscapedChar line ch w = oss_put line (escape ch) w"
  by (simp add: PutEscapedChar_def escape_def escaping_table_def oss_put_oss_put)

lemma Put_string_loop_escape:
  "Put_string_loop line s w = oss_put line (concat (map escape s)) w"
  by (induction s arbitrary: w)
     (simp_all add: oss_put_Nil PutEscapedChar_escape oss_put_oss_put)

lemma Put_cstr_loop_escape:
  "Put_cstr_loop line bs w = oss_put line (concat (map escape (c_str bs))) w"
  by (induction bs arbitrary: w)
     (simp_all add: c_str_def oss_put_Nil PutEscapedChar_escape oss_put_oss_put)

lemma commas_Cons:
  "commas (encode fd v # map (encode fd) vs) = encode fd v @ rest_text fd vs"
  by (induction vs arbitrary: v) simp_all

lemma encode_decay: "encode fd (ArrayToPointerDecay t) = encode fd t"
  by (cases t) simp_all

lemma Put_encode:
  "Put fd line v w = oss_put line (encode fd v) w"
  "PutDecay fd line t w = oss_put line (encode fd t) w"
  "Put_vector_loop fd line first vs w =
     oss_put line (if first then commas (map (encode fd) vs) else rest_text fd vs) w"
proof (induction fd line v w and fd line t w and fd line first vs w
       rule: Put_PutDecay_Put_vector_loop.induct)
  case (10 fd line vec w)
  then show ?case by (simp add: oss_put_oss_put)
next
  case (11 fd line t w)
  then show ?case by (simp add: encode_decay)
next
  case (13 fd line first v vs w)
  then show ?case
    by (simp add: oss_put_oss_put commas_Cons del: commas.simps)
qed (simp_all add: oss_put_oss_put oss_put_Nil quoted_def
       Put_string_loop_escape Put_cstr_loop_escape)

lemma ostream_write_append:
  "ostream_write t (ostream_write s os) = ostream_write (s @ t) os"
  by (cases "room os") (auto simp: ostream_write_def)

lemma Output_cout:
  "cout (Output this w) =
     ostream_write (''{'' @ oss (heap w this) @ ''}'' @ [CHR 0x0A]) (cout w)"
  by (simp add: Output_def endl_def ostream_write_append)

lemma Output_heap: "heap (Output this w) = heap w"
  by (simp add: Output_def)

lemma heap_oss_put:
  "heap (oss_put line s w) =
     (heap w)(logger line := (heap w (logger line))\<lparr>oss := oss (heap w (logger line)) @ s\<rparr>)"
  by (simp add: oss_put_def)

lemma cout_oss_put: "cout (oss_put line s w) = cout w"
  by (simp add: oss_put_def)

lemma cout_PutSeparator: "cout (PutSeparator line w) = cout w"
  by (simp add: PutSeparator_def Let_def cout_oss_put)

lemma cout_JsonLine_shl: "cout (JsonLine_shl fd line t w) = cout w"
  by (simp add: JsonLine_shl_def Put_encode cout_oss_put cout_PutSeparator)

lemma cout_shl_chain: "cout (shl_chain fd line ts w) = cout w"
  by (induction ts arbitrary: w) (simp_all add: cout_JsonLine_shl)

lemma JsonLogger_updates:
  "(r::JsonLogger)\<lparr>elements := e, oss := s\<rparr> = \<lparr>oss = s, elements = e\<rparr>"
  by (cases r) simp

lemma JsonLine_shl_logger:
  "heap (JsonLine_shl fd line t w) (logger line) =
     \<lparr>oss = oss (heap w (logger line)) @
             (if elements (heap w (logger line)) = 0 then []
              else if elements (heap w (logger line)) mod 2 = 0 then '','' else '':'') @
             encode fd t,
      elements = elements (heap w (logger line)) + 1\<rparr>"
  by (simp add: JsonLine_shl_def Put_encode PutSeparator_def Let_def oss_put_def
        JsonLogger_updates del: PutDecay.simps)

lemma JsonLine_shl_other:
  "a \<noteq> logger line \<Longrightarrow> heap (JsonLine_shl fd line t w) a = heap w a"
  by (simp add: JsonLine_shl_def Put_encode PutSeparator_def Let_def oss_put_def)

lemma shl_chain_pairs:
  "elements (heap w (logger line)) mod 2 = 0 \<Longrightarrow> 0 < elements (heap w (logger line)) \<Longrightarrow>
   heap (shl_chain fd line (fields kvs) w) (logger line) =
     \<lparr>oss = oss (heap w (logger line)) @ pairs_text fd kvs,
      elements = elements (heap w (logger line)) + 2 * length kvs\<rparr>"
proof (induction kvs arbitrary: w)
  case Nil
  then show ?case by simp
next
  case (Cons kv kvs)
  obtain k v where kv: "kv = (k, v)" by (cases kv)
  let ?w1 = "JsonLine_shl fd line k w"
  let ?w2 = "JsonLine_shl fd line v ?w1"
  have e1: "heap ?w1 (logger line) =
      \<lparr>oss = oss (heap w (logger line)) @ '','' @ encode fd k,
       elements = elements (heap w (logger line)) + 1\<rparr>"
    using Cons.prems by (simp add: JsonLine_shl_logger)
  have "(elements (heap w (logger line)) + 1) mod 2 \<noteq> 0"
    using Cons.prems(1) by presburger
  then have e2: "heap ?w2 (logger line) =
      \<lparr>oss = oss (heap w (logger line)) @ '','' @ encode fd k @ '':'' @ encode fd v,
       elements = elements (heap w (logger line)) + 2\<rparr>"
    by (simp add: JsonLine_shl_logger [of fd line v ?w1] e1)
  have "elements (heap ?w2 (logger line)) mod 2 = 0" "0 < elements (heap ?w2 (logger line))"
    using Cons.prems by (simp_all add: e2)
  from Cons.IH [OF this] show ?case
    by (simp add: kv e2)
qed

lemma JsonLogger_line_eq:
  "JsonLogger_line fd this now w =
     (\<lparr>logger = this\<rparr>,
      w\<lparr>heap := (heap w)(this :=
           \<lparr>oss = [CHR 0x22] @ ''ts'' @ [CHR 0x22] @ '':'' @ dec_int (sint now),
            elements = 2\<rparr>)\<rparr>)"
  by (simp add: JsonLogger_line_def Let_def JsonLine_ctor_def JsonLine_shl_def Put_encode
        PutSeparator_def oss_put_def quoted_def c_str_def escape_def escaping_table_def
        JsonLogger_updates numeral_2_eq_2 del: PutDecay.simps)

lemma digit_not_newline: "d < 10 \<Longrightarrow> CHR 0x0A \<noteq> digit d"
proof
  assume d: "d < 10" and "CHR 0x0A = digit d"
  then have "(of_char (CHR 0x0A) :: nat) = of_char (digit d)" by simp
  with d show False by (simp add: digit_def)
qed

lemma dec_nat_no_newline: "CHR 0x0A \<notin> set (dec_nat n)"
proof (induction n rule: dec_nat.induct)
  case (1 n)
  show ?case
  proof (cases "n < 10")
    case True
    then show ?thesis by (simp add: dec_nat.simps [of n] digit_not_newline)
  next
    case False
    with 1 show ?thesis
      by (simp add: dec_nat.simps [of n] digit_not_newline)
  qed
qed

lemma dec_int_no_newline: "CHR 0x0A \<notin> set (dec_int i)"
  by (simp add: dec_int_def dec_nat_no_newline)

lemma escape_no_newline: "CHR 0x0A \<notin> set (escape c)"
  by (simp add: escape_def escaping_table_def)

lemma quoted_no_newline: "CHR 0x0A \<notin> set (quoted s)"
  by (induction s) (simp_all add: quoted_def escape_no_newline)

lemma commas_no_newline:
  "(\<And>x. x \<in> set xs \<Longrightarrow> CHR 0x0A \<notin> set x) \<Longrightarrow> CHR 0x0A \<notin> set (commas xs)"
  by (induction xs rule: commas.induct) simp_all

lemma encode_no_newline:
  "(\<And>d. CHR 0x0A \<notin> set (fd d)) \<Longrightarrow> CHR 0x0A \<notin> set (encode fd v)"
proof (induction fd v rule: encode.induct)
  case (10 fd vs)
  then show ?case by (auto intro!: commas_no_newline)
qed (simp_all add: dec_int_no_newline quoted_no_newline)

lemma pairs_text_no_newline:
  "(\<And>d. CHR 0x0A \<notin> set (fd d)) \<Longrightarrow> CHR 0x0A \<notin> set (pairs_text fd kvs)"
  by (induction kvs) (auto simp: encode_no_newline)

lemma written_ostream_write:
  "written (ostream_write s os) =
     written os @ (if badbit os then [] else case room os of None \<Rightarrow> s | Some r \<Rightarrow> take r s)"
  by (cases "room os") (simp_all add: ostream_write_def)

lemma badbit_ostream_write:
  "badbit (ostream_write s os) =
     (badbit os \<or> (case room os of None \<Rightarrow> False | Some r \<Rightarrow> r < length s))"
  by (cases "room os") (auto simp: ostream_write_def)

lemma ostream_write_good:
  "\<not> badbit os \<Longrightarrow> room os = None \<Longrightarrow> ostream_write s os = os\<lparr>written := written os @ s\<rparr>"
  by (simp add: ostream_write_def)

lemma shl_chain_other:
  "a \<noteq> logger line \<Longrightarrow> heap (shl_chain fd line ts w) a = heap w a"
  by (induction ts arbitrary: w) (simp_all add: JsonLine_shl_other)

lemma record_text_no_newline:
  "(\<And>d. CHR 0x0A \<notin> set (fd d)) \<Longrightarrow> CHR 0x0A \<notin> set (record_text fd now kvs)"
  by (simp add: record_text_def ts_text_def pairs_text_no_newline dec_int_no_newline)

lemma dec_int_5: "dec_int 5 = ''5''"
  by code_simp

lemma Put_text_encode: "Put_text fd t = encode fd t"
  by (simp add: Put_text_def Put_encode oss_put_def JsonLine_ctor_def empty_world_def
        del: PutDecay.simps)


lemma JsonLine_shl_counter_bound:
  "elements (heap w (logger line)) \<le> Suc (length (oss (heap w (logger line)))) \<Longrightarrow>
   elements (heap (JsonLine_shl fd line t w) (logger line))
     \<le> Suc (length (oss (heap (JsonLine_shl fd line t w) (logger line))))"
  by (simp add: JsonLine_shl_logger)

lemma json_decode_string_quoted:
  "json_decode_string (quoted s) = json_unescape (concat (map escape s))"
  by (simp add: json_decode_string_def quoted_def)

lemma utf8_split_unfold:
  "utf8_split (a # b # t) =
     (if utf8_lead2 a b then Some ([a, b], t)
      else case t of
        [] \<Rightarrow> None
      | c # t' \<Rightarrow>
          if utf8_lead3 a b \<and> utf8_cont c then Some ([a, b, c], t')
          else case t' of
            [] \<Rightarrow> None
          | d # r \<Rightarrow>
              if utf8_lead4 a b \<and> utf8_cont c \<and> utf8_cont d then Some ([a, b, c, d], r)
              else None)"
proof (cases t)
  case Nil
  then show ?thesis by simp
next
  case (Cons c t')
  then show ?thesis by (cases t') simp_all
qed

lemma utf8_split_short: "utf8_split [] = None" "utf8_split [a] = None"
  by simp_all

lemma utf8_split_cases:
  assumes "utf8_split s = Some (q, r)"
  obtains a b where "s = a # b # r" "q = [a, b]" "utf8_lead2 a b"
  | a b c where "s = a # b # c # r" "q = [a, b, c]" "\<not> utf8_lead2 a b" "utf8_lead3 a b" "utf8_cont c"
  | a b c d where "s = a # b # c # d # r" "q = [a, b, c, d]" "\<not> utf8_lead2 a b"
      "\<not> (utf8_lead3 a b \<and> utf8_cont c)" "utf8_lead4 a b" "utf8_cont c" "utf8_cont d"
proof (cases s)
  case Nil
  with assms show ?thesis by simp
next
  case (Cons a s1)
  show ?thesis
  proof (cases s1)
    case Nil
    with Cons assms show ?thesis by simp
  next
    case (Cons b t)
    with \<open>s = a # s1\<close> assms that show ?thesis
      by (auto simp: utf8_split_unfold split: if_splits list.splits)
  qed
qed

lemma utf8_lead_high:
  "utf8_lead2 a b \<Longrightarrow> (0x80::nat) \<le> of_char a \<and> (0x80::nat) \<le> of_char b"
  "utf8_lead3 a b \<Longrightarrow> (0x80::nat) \<le> of_char a \<and> (0x80::nat) \<le> of_char b"
  "utf8_lead4 a b \<Longrightarrow> (0x80::nat) \<le> of_char a \<and> (0x80::nat) \<le> of_char b"
  "utf8_cont c \<Longrightarrow> (0x80::nat) \<le> of_char c"
  by (auto simp: utf8_lead2_def utf8_lead3_def utf8_lead4_def utf8_cont_def Let_def)

lemma utf8_split_append: "utf8_split s = Some (q, r) \<Longrightarrow> s = q @ r"
  by (erule utf8_split_cases) simp_all

lemma utf8_split_high:
  "utf8_split s = Some (q, r) \<Longrightarrow> x \<in> set q \<Longrightarrow> (0x80::nat) \<le> of_char x"
  by (erule utf8_split_cases) (auto dest: utf8_lead_high)

lemma utf8_split_prefix: "utf8_split s = Some (q, r) \<Longrightarrow> utf8_split (q @ t) = Some (q, t)"
  by (erule utf8_split_cases) (simp_all add: utf8_split_unfold)

lemma escaping_table_ascii: "x \<in> fst ` set escaping_table \<Longrightarrow> (of_char x :: nat) < 0x80"
  by (auto simp: escaping_table_def)

lemma escape_other: "x \<notin> fst ` set escaping_table \<Longrightarrow> escape x = [x]"
  by (simp add: escape_def map_of_eq_None_iff [THEN iffD2])

lemma escape_high: "(0x80::nat) \<le> of_char x \<Longrightarrow> escape x = [x]"
proof (rule escape_other)
  assume "(0x80::nat) \<le> of_char x"
  then have "\<not> (of_char x :: nat) < 0x80" by simp
  then show "x \<notin> fst ` set escaping_table"
    using escaping_table_ascii by blast
qed

lemma concat_escape_high:
  "\<forall>x\<in>set q. (0x80::nat) \<le> of_char x \<Longrightarrow> concat (map escape q) = q"
  by (induction q) (simp_all add: escape_high)

lemma json_unescape_ascii:
  "c \<noteq> CHR 0x5C \<Longrightarrow> c \<noteq> CHR 0x22 \<Longrightarrow> (0x20::nat) \<le> of_char c \<Longrightarrow>
   (of_char c :: nat) < 0x80 \<Longrightarrow>
   json_unescape (c # cs) = map_option ((#) c) (json_unescape cs)"
  by (simp add: json_unescape.simps(2))

lemma json_unescape_short:
  "unescape_char e = Some d \<Longrightarrow> e \<noteq> CHR ''u'' \<Longrightarrow>
   json_unescape (CHR 0x5C # e # r) = map_option ((#) d) (json_unescape r)"
  by (simp add: json_unescape.simps(2))

lemma json_unescape_utf8:
  assumes "utf8_split s = Some (q, r)"
  shows "json_unescape (q @ t) = map_option ((@) q) (json_unescape t)"
proof -
  from assms obtain c q' where q: "q = c # q'"
    by (auto elim: utf8_split_cases)
  with assms have hi: "(0x80::nat) \<le> of_char c"
    by (auto dest: utf8_split_high)
  have "(of_char (CHR 0x5C) :: nat) < 0x80" "(of_char (CHR 0x22) :: nat) < 0x80"
    by simp_all
  with hi have "c \<noteq> CHR 0x5C" "c \<noteq> CHR 0x22"
    by (metis not_le)+
  moreover from hi have "\<not> (of_char c :: nat) < 0x20" "\<not> (of_char c :: nat) < 0x80"
    by simp_all
  moreover have "utf8_split (c # q' @ t) = Some (q, t)"
    using utf8_split_prefix [OF assms, of t] by (simp add: q)
  ultimately show ?thesis
    by (simp add: q json_unescape.simps(2))
qed

lemma json_unescape_escape_step:
  assumes "c \<in> fst ` set escaping_table \<or> (0x20::nat) \<le> of_char c"
    and "(of_char c :: nat) < 0x80"
  shows "json_unescape (escape c @ t) = map_option ((#) c) (json_unescape t)"
proof (cases "c \<in> fst ` set escaping_table")
  case True
  then consider "c = CHR 0x5C" | "c = CHR 0x22" | "c = CHR ''/''" | "c = CHR 0x08"
    | "c = CHR 0x0C" | "c = CHR 0x0A" | "c = CHR 0x0D" | "c = CHR 0x09"
    by (auto simp: escaping_table_def)
  then show ?thesis
    by cases
       (simp_all add: escape_def escaping_table_def json_unescape_short unescape_char_def)
next
  case False
  with assms have "(0x20::nat) \<le> of_char c" by simp
  moreover from False have "c \<noteq> CHR 0x5C" "c \<noteq> CHR 0x22"
    by (auto simp: escaping_table_def)
  moreover from False have "escape c = [c]"
    by (rule escape_other)
  ultimately show ?thesis
    using assms(2) by (simp add: json_unescape_ascii)
qed

lemma json_unescape_escape:
  "well_formed_utf8 s \<Longrightarrow>
   \<forall>c\<in>set s. c \<in> fst ` set escaping_table \<or> (0x20::nat) \<le> of_char c \<Longrightarrow>
   json_unescape (concat (map escape s)) = Some s"
proof (induction s rule: well_formed_utf8.induct)
  case 1
  then show ?case by simp
next
  case (2 c cs)
  show ?case
  proof (cases "(of_char c :: nat) < 0x80")
    case True
    with "2.prems" have "well_formed_utf8 cs"
      by (simp add: well_formed_utf8.simps(2))
    with "2.IH"(1) [OF True] "2.prems"(2)
    have "json_unescape (concat (map escape cs)) = Some cs" by simp
    with "2.prems"(2) True show ?thesis
      by (simp add: json_unescape_escape_step)
  next
    case False
    with "2.prems"(1) obtain q r where split: "utf8_split (c # cs) = Some (q, r)"
      and wf: "well_formed_utf8 r"
      by (auto simp: well_formed_utf8.simps(2) split: option.splits)
    have eq: "c # cs = q @ r"
      using split by (rule utf8_split_append)
    then have "set r \<subseteq> set (c # cs)" by simp
    with "2.prems"(2)
    have "\<forall>x\<in>set r. x \<in> fst ` set escaping_table \<or> (0x20::nat) \<le> of_char x"
      by blast
    with "2.IH"(2) [OF False split refl wf]
    have IH: "json_unescape (concat (map escape r)) = Some r" .
    have "concat (map escape q) = q"
      using split by (intro concat_escape_high ballI) (rule utf8_split_high)
    then have "concat (map escape (c # cs)) = q @ concat (map escape r)"
      unfolding eq by simp
    then show ?thesis
      using json_unescape_utf8 [OF split] IH eq by simp
  qed
qed

lemma digit_chars:
  "digit 0 = CHR ''0''" "digit 1 = CHR ''1''" "digit 2 = CHR ''2''" "digit 3 = CHR ''3''"
  "digit 4 = CHR ''4''" "digit 5 = CHR ''5''" "digit 6 = CHR ''6''" "digit 7 = CHR ''7''"
  "digit 8 = CHR ''8''" "digit 9 = CHR ''9''" "digit (Suc 0) = CHR ''1''"
  by code_simp+

lemma digits_123457: "dec_nat 123457 = ''123457''" "dec_nat 6 = ''6''"
  by (simp_all add: dec_nat.simps digit_chars)

lemma six_1234567:
  "double_six_digits 0x4132D68700000000 = (False, 123457, 6)"
  "double_finite_nonzero 0x4132D68700000000"
  by (simp_all add: double_six_digits_def double_finite_nonzero_def double_sign_def
        double_exponent_def double_fraction_def double_magnitude_def Let_def significand6_def
        decimal_exponent_def exp10_up.simps round_half_even_def)

lemma six_1234570:
  "double_six_digits 0x4132D68A00000000 = (False, 123457, 6)"
  "double_finite_nonzero 0x4132D68A00000000"
  by (simp_all add: double_six_digits_def double_finite_nonzero_def double_sign_def
        double_exponent_def double_fraction_def double_magnitude_def Let_def significand6_def
        decimal_exponent_def exp10_up.simps round_half_even_def)

lemma layout_123457_6: "g_layout (123457, 6) = ''1.23457e+06''"
  by (simp add: g_layout_def Let_def digits_123457 with_point_def strip_zeros_def)


lemma text_1234567: "ostream_double 0x4132D68700000000 = ''1.23457e+06''"
  using six_1234567
  by (simp add: ostream_double_def double_six_digits_def double_finite_nonzero_def
        layout_123457_6)

lemma text_1234570: "ostream_double 0x4132D68A00000000 = ''1.23457e+06''"
  using six_1234570
  by (simp add: ostream_double_def double_six_digits_def double_finite_nonzero_def
        layout_123457_6)

lemma ostream_double_six_digits:
  "double_finite_nonzero d \<Longrightarrow>
   ostream_double d =
     (if fst (double_six_digits d) then ''-'' else []) @ g_layout (snd (double_six_digits d))"
  by (simp add: ostream_double_def double_finite_nonzero_def double_six_digits_def)

lemma double_magnitude_denominator: "0 < snd (double_magnitude d)"
  by (simp add: double_magnitude_def Let_def)

lemma exp10_up_scale: "0 < b \<Longrightarrow> exp10_up (n * b) (c * b) = exp10_up n c"
proof (induction n c rule: exp10_up.induct)
  case (1 a c)
  show ?case
  proof (cases "c = 0 \<or> a < 10 * c")
    case True
    with 1(2) show ?thesis
      by (subst exp10_up.simps, subst (2) exp10_up.simps) auto
  next
    case False
    with 1(2) have "\<not> (c * b = 0 \<or> a * b < 10 * (c * b))" by auto
    moreover from 1(1) [OF False 1(2)]
    have "exp10_up (a * b) (10 * (c * b)) = exp10_up a (10 * c)"
      by (simp add: mult.assoc)
    ultimately show ?thesis
      using False by (subst exp10_up.simps, subst (2) exp10_up.simps) simp
  qed
qed

lemma exp10_up_div: "0 < c \<Longrightarrow> exp10_up n (10 * c) = exp10_up (n div 10) c"
proof (induction n "10 * c" arbitrary: c rule: exp10_up.induct)
  case (1 a)
  have iff: "a < 10 * (10 * c) \<longleftrightarrow> a div 10 < 10 * c"
    by (simp add: div_less_iff_less_mult mult.commute)
  show ?case
  proof (cases "a < 10 * (10 * c)")
    case True
    with iff 1(2) show ?thesis
      by (subst exp10_up.simps, subst (2) exp10_up.simps) simp
  next
    case False
    with 1(2) have "\<not> (10 * c = 0 \<or> a < 10 * (10 * c))" by simp
    from 1(1) [OF this refl] 1(2)
    have "exp10_up a (10 * (10 * c)) = exp10_up (a div 10) (10 * c)" by simp
    with False iff 1(2) show ?thesis
      by (subst exp10_up.simps, subst (2) exp10_up.simps) simp
  qed
qed

lemma exp10_up_bounds:
  "0 < c \<Longrightarrow> c \<le> n \<Longrightarrow> c * 10 ^ exp10_up n c \<le> n \<and> n < c * 10 ^ Suc (exp10_up n c)"
proof (induction n c rule: exp10_up.induct)
  case (1 a c)
  show ?case
  proof (cases "a < 10 * c")
    case True
    with 1(2,3) show ?thesis
      by (subst exp10_up.simps, subst (2) exp10_up.simps) simp
  next
    case False
    with 1(2) have c: "\<not> (c = 0 \<or> a < 10 * c)" "0 < 10 * c" "10 * c \<le> a" by simp_all
    from 1(1) [OF c] False 1(2) show ?thesis
      by (subst exp10_up.simps, subst (2) exp10_up.simps) (simp add: mult.assoc)
  qed
qed

lemma length_dec_nat: "0 < n \<Longrightarrow> length (dec_nat n) = Suc (exp10_up n 1)"
proof (induction n rule: dec_nat.induct)
  case (1 n)
  show ?case
  proof (cases "n < 10")
    case True
    then show ?thesis
      by (simp add: dec_nat.simps [of n] exp10_up.simps [of n])
  next
    case False
    then have "0 < n div 10" by simp
    with 1 False have "length (dec_nat (n div 10)) = Suc (exp10_up (n div 10) 1)"
      by simp
    moreover have "exp10_up n 1 = Suc (exp10_up n 10)"
      using False by (subst exp10_up.simps) simp
    moreover have "exp10_up n 10 = exp10_up (n div 10) 1"
      using exp10_up_div [of 1 n] by simp
    ultimately show ?thesis
      using False by (simp add: dec_nat.simps [of n])
  qed
qed

lemma dec_nat_times_10: "0 < n \<Longrightarrow> dec_nat (n * 10) = dec_nat n @ ''0''"
  by (simp add: dec_nat.simps [of "n * 10"] digit_chars)

lemma dec_nat_times_power:
  "0 < n \<Longrightarrow> dec_nat (n * 10 ^ j) = dec_nat n @ replicate j (CHR ''0'')"
proof (induction j)
  case 0
  then show ?case by simp
next
  case (Suc j)
  then have "dec_nat (n * 10 ^ j * 10) = dec_nat (n * 10 ^ j) @ ''0''"
    by (intro dec_nat_times_10) simp
  moreover have "n * 10 ^ Suc j = n * 10 ^ j * 10"
    by simp
  ultimately have "dec_nat (n * 10 ^ Suc j) = dec_nat (n * 10 ^ j) @ ''0''"
    by (simp only:)
  with Suc show ?case
    by (simp add: replicate_append_same)
qed

lemma strip_zeros_replicate: "strip_zeros (replicate j (CHR ''0'')) = []"
  by (simp add: strip_zeros_def)

lemma round_half_even_exact: "0 < b \<Longrightarrow> round_half_even (m * b) b = m"
  by (simp add: round_half_even_def Let_def)


lemma g_layout_integer:
  assumes n: "0 < n" "n < 1000000" and b: "0 < b"
  shows "g_layout (significand6 (n * b) b) = dec_nat n"
proof -
  let ?k = "exp10_up n 1"
  from exp10_up_bounds [of 1 n] n
  have bounds: "10 ^ ?k \<le> n" "n < 10 ^ Suc ?k"
    by simp_all
  have k: "?k \<le> 5"
  proof (rule ccontr)
    assume "\<not> ?k \<le> 5"
    then have "(10::nat) ^ 6 \<le> 10 ^ ?k"
      by (intro power_increasing) simp_all
    with bounds(1) n(2) show False by simp
  qed
  have "b \<le> n * b"
    using n(1) by simp
  moreover have "exp10_up (n * b) b = ?k"
    using exp10_up_scale [OF b, of n 1] by simp
  ultimately have X: "decimal_exponent (n * b) b = int ?k"
    by (simp add: decimal_exponent_def)
  have "n * 10 ^ (5 - ?k) < 10 ^ Suc ?k * 10 ^ (5 - ?k)"
    using bounds(2) by simp
  also have "\<dots> = 10 ^ 6"
    using k by (simp add: power_add [symmetric] del: power_Suc)
  finally have lt: "n * 10 ^ (5 - ?k) < 1000000"
    by simp
  have "round_half_even (n * b * 10 ^ (5 - ?k)) b = n * 10 ^ (5 - ?k)"
    using round_half_even_exact [OF b, of "n * 10 ^ (5 - ?k)"]
    by (simp add: mult.assoc mult.commute mult.left_commute)
  with X k lt have sig: "significand6 (n * b) b = (n * 10 ^ (5 - ?k), int ?k)"
    by (simp add: significand6_def Let_def nat_diff_distrib')
  have len: "length (dec_nat n) = Suc ?k"
    using n(1) by (rule length_dec_nat)
  show ?thesis
    using n(1) k len
    by (simp add: sig g_layout_def Let_def dec_nat_times_power with_point_def
          strip_zeros_replicate)
qed

lemma ostream_double_integer:
  assumes "double_finite_nonzero d" "0 < n" "n < 1000000"
    and "fst (double_magnitude d) = n * snd (double_magnitude d)"
  shows "ostream_double d = (if double_sign d then ''-'' else []) @ dec_nat n"
  using assms g_layout_integer [OF assms(2,3) double_magnitude_denominator [of d]]
  by (simp add: ostream_double_def double_finite_nonzero_def)

lemma digit_value: "k < 10 \<Longrightarrow> (of_char (digit k) :: nat) - 48 = k"
  by (simp add: digit_def)

lemma digits_value_dec_nat: "digits_value (dec_nat n) = n"
proof (induction n rule: dec_nat.induct)
  case (1 n)
  show ?case
  proof (cases "n < 10")
    case True
    then show ?thesis
      by (simp add: dec_nat.simps [of n] digits_value_def digit_value)
  next
    case False
    with 1 have "digits_value (dec_nat (n div 10)) = n div 10"
      by simp
    with False show ?thesis
      by (simp add: dec_nat.simps [of n] digits_value_def digit_value)
  qed
qed

section \<open>The claims\<close>

text \<open>
  Claim C1. A record is built by \<open>line()\<close> and a chain of \<open><<\<close> that appends
  complete key/value pairs; the sink is in its good state. Then the destructor of the
  line returns normally and adds to the sink exactly \<open>{\<close>, the \<open>"ts"\<close> pair, each
  appended pair as \<open>,key:value\<close> in the order of insertion, \<open>}\<close> and the line
  terminator: nothing before the first field, a comma before each key, a colon before
  each value, no blanks and no separator at the end. The text before the terminator has
  no newline in it (given that the text of a \<open>double\<close> has none), so it is one line.
\<close>

theorem C1_flush_writes_one_record:
  assumes sink: "\<not> badbit (cout w)" "room (cout w) = None"
    and built: "w2 = shl_chain fd (fst (JsonLogger_line fd this now w)) (fields kvs)
                       (snd (JsonLogger_line fd this now w))"
    and dbl: "\<forall>d. CHR 0x0A \<notin> set (fd d)"
  shows "fst (JsonLine_dtor (fst (JsonLogger_line fd this now w)) w2) = Inr () \<and>
         written (cout (snd (JsonLine_dtor (fst (JsonLogger_line fd this now w)) w2))) =
           written (cout w) @
           ''{'' @ ts_text now @ pairs_text fd kvs @ ''}'' @ [CHR 0x0A] \<and>
         CHR 0x0A \<notin> set (''{'' @ ts_text now @ pairs_text fd kvs @ ''}'')"
proof -
  let ?out = "\<lparr>logger = this\<rparr>"
  let ?w1 = "snd (JsonLogger_line fd this now w)"
  have out: "fst (JsonLogger_line fd this now w) = ?out"
    by (simp add: JsonLogger_line_eq)
  have h1: "heap ?w1 (logger ?out) = \<lparr>oss = ts_text now, elements = 2\<rparr>"
    by (simp add: JsonLogger_line_eq ts_text_def)
  have c1: "cout ?w1 = cout w"
    by (simp add: JsonLogger_line_eq)
  have w2: "w2 = shl_chain fd ?out (fields kvs) ?w1"
    using built by (simp add: out)
  have "elements (heap ?w1 (logger ?out)) mod 2 = 0" "0 < elements (heap ?w1 (logger ?out))"
    using h1 by simp_all
  from shl_chain_pairs [OF this, of fd kvs]
  have h2: "heap w2 this = \<lparr>oss = ts_text now @ pairs_text fd kvs, elements = 2 + 2 * length kvs\<rparr>"
    using h1 by (simp add: w2)
  have c2: "cout w2 = cout w"
    by (simp add: w2 cout_shl_chain c1)
  have even: "elements (heap w2 (logger ?out)) mod 2 = 0"
    using h2 by simp
  have d: "JsonLine_dtor ?out w2 = (Inr (), Output this w2)"
    using even by (simp add: JsonLine_dtor_def)
  have "written (cout (Output this w2)) =
          written (cout w) @ ''{'' @ ts_text now @ pairs_text fd kvs @ ''}'' @ [CHR 0x0A]"
    using sink by (simp add: Output_cout h2 c2 ostream_write_good)
  moreover have "CHR 0x0A \<notin> set (''{'' @ ts_text now @ pairs_text fd kvs @ ''}'')"
    using record_text_no_newline [of fd now kvs] dbl by (simp add: record_text_def)
  ultimately show ?thesis
    by (simp add: out d)
qed


theorem C1_flush_writes_one_record_witness:
  "written (cout (snd (JsonLine_dtor (fst (JsonLogger_line (\<lambda>d::unit. []) 0 5 empty_world))
       (shl_chain (\<lambda>d::unit. []) (fst (JsonLogger_line (\<lambda>d::unit. []) 0 5 empty_world))
          (fields [(JCharArray ''count'', JInt 42)])
          (snd (JsonLogger_line (\<lambda>d::unit. []) 0 5 empty_world)))))) =
     ''{'' @ [CHR 0x22] @ ''ts'' @ [CHR 0x22] @ '':5,'' @ [CHR 0x22] @ ''count'' @ [CHR 0x22] @
     '':42}'' @ [CHR 0x0A]"
proof -
  have sink: "\<not> badbit (cout empty_world)" "room (cout empty_world) = None"
    by (simp_all add: empty_world_def)
  have dbl: "\<forall>d::unit. CHR 0x0A \<notin> set ((\<lambda>d. []) d)"
    by simp
  have ts: "dec_int 5 = ''5''" "dec_int 42 = ''42''"
    by code_simp+
  from C1_flush_writes_one_record [OF sink refl dbl, of 0 5 "[(JCharArray ''count'', JInt 42)]"]
  show ?thesis
    by (simp add: empty_world_def ts_text_def ts quoted_def c_str_def escape_def
          escaping_table_def)
qed

text \<open>
  Claim C2. The destructor of a line checks the parity of the counter before anything
  else. With an odd counter the assertion fails and the world, the sink included, is
  as it was: no record is emitted. With an even counter the destructor returns normally
  and has called \<open>Output\<close>, which offers \<open>{\<close>, the buffer, \<open>}\<close> and the line
  terminator to the sink. (\<open>assert\<close> is the checking one: \<open>NDEBUG\<close> is not defined.)
\<close>

theorem C2_release_checks_parity:
  "(elements (heap w (logger line)) mod 2 = 1 \<longrightarrow>
      JsonLine_dtor line w = (Inl AssertionFailed, w)) \<and>
   (elements (heap w (logger line)) mod 2 = 0 \<longrightarrow>
      JsonLine_dtor line w = (Inr (), Output (logger line) w) \<and>
      cout (Output (logger line) w) =
        ostream_write (''{'' @ oss (heap w (logger line)) @ ''}'' @ [CHR 0x0A]) (cout w))"
  by (simp add: JsonLine_dtor_def Output_cout)

theorem C2_release_checks_parity_witness:
  "fst (JsonLine_dtor \<lparr>logger = 0\<rparr>
          (JsonLine_shl (\<lambda>d::unit. []) \<lparr>logger = 0\<rparr> (JCharArray ''k'')
             (snd (JsonLogger_line (\<lambda>d::unit. []) 0 5 empty_world)))) = Inl AssertionFailed \<and>
   written (cout (snd (JsonLine_dtor \<lparr>logger = 0\<rparr>
          (JsonLine_shl (\<lambda>d::unit. []) \<lparr>logger = 0\<rparr> (JCharArray ''k'')
             (snd (JsonLogger_line (\<lambda>d::unit. []) 0 5 empty_world)))))) = [] \<and>
   written (cout (snd (JsonLine_dtor \<lparr>logger = 0\<rparr>
          (snd (JsonLogger_line (\<lambda>d::unit. []) 0 5 empty_world))))) =
     ''{'' @ [CHR 0x22] @ ''ts'' @ [CHR 0x22] @ '':5}'' @ [CHR 0x0A]"
proof -
  let ?w1 = "snd (JsonLogger_line (\<lambda>d::unit. []) 0 5 empty_world)"
  let ?w2 = "JsonLine_shl (\<lambda>d::unit. []) \<lparr>logger = 0\<rparr> (JCharArray ''k'') ?w1"
  have odd: "elements (heap ?w2 (logger \<lparr>logger = 0\<rparr>)) mod 2 = 1"
    by (simp add: JsonLine_shl_logger [of _ "\<lparr>logger = 0\<rparr>", simplified] JsonLogger_line_eq)
  have even: "elements (heap ?w1 (logger \<lparr>logger = 0\<rparr>)) mod 2 = 0"
    by (simp add: JsonLogger_line_eq)
  have c2: "cout ?w2 = cout empty_world"
    by (simp add: cout_JsonLine_shl JsonLogger_line_eq)
  from C2_release_checks_parity [of ?w2 "\<lparr>logger = 0\<rparr>"] odd
  have a: "JsonLine_dtor \<lparr>logger = 0\<rparr> ?w2 = (Inl AssertionFailed, ?w2)"
    by blast
  from C2_release_checks_parity [of ?w1 "\<lparr>logger = 0\<rparr>"] even
  have b: "JsonLine_dtor \<lparr>logger = 0\<rparr> ?w1 = (Inr (), Output 0 ?w1)"
     "cout (Output 0 ?w1) =
        ostream_write (''{'' @ oss (heap ?w1 0) @ ''}'' @ [CHR 0x0A]) (cout ?w1)"
    by simp_all
  have "written (cout (Output 0 ?w1)) =
          ''{'' @ [CHR 0x22] @ ''ts'' @ [CHR 0x22] @ '':5}'' @ [CHR 0x0A]"
    unfolding b(2)
    by (simp add: JsonLogger_line_eq empty_world_def ostream_write_def dec_int_5)
  then show ?thesis
    by (simp add: a b(1) c2) (simp add: empty_world_def)
qed

text \<open>
  Claim C3, where the code departs from it. The move constructor of \<open>JsonLine\<close> is
  the defaulted one and the destructor flushes without a condition, so a line that is
  moved is flushed once by each of the two objects. In the scope
  \<open>{ JsonLine a = logger.line(); JsonLine b(std::move(a)); }\<close>, started at clock
  reading 5 on the empty world, the one record started reaches the sink twice. And where
  \<open>return out;\<close> of \<open>JsonLogger::operator <<\<close> moves instead of eliding, the local
  \<open>out\<close> is destroyed with three fields written and the assertion fails.
\<close>

theorem C3_moved_line_flushes_twice:
  "fst (scope_with_move (\<lambda>d::unit. []) 0 5 empty_world) = Inr () \<and>
   written (cout (snd (scope_with_move (\<lambda>d::unit. []) 0 5 empty_world))) =
     (''{'' @ [CHR 0x22] @ ''ts'' @ [CHR 0x22] @ '':5}'' @ [CHR 0x0A]) @
     (''{'' @ [CHR 0x22] @ ''ts'' @ [CHR 0x22] @ '':5}'' @ [CHR 0x0A]) \<and>
   fst (return_by_move
          (fst (JsonLogger_shl (\<lambda>d::unit. []) 0 5 (JCharArray ''k'') empty_world))
          (snd (JsonLogger_shl (\<lambda>d::unit. []) 0 5 (JCharArray ''k'') empty_world))) =
     Inl AssertionFailed"
  by (simp add: scope_with_move_def JsonLogger_shl_def JsonLogger_line_eq JsonLine_move_def
        JsonLine_dtor_def Output_def endl_def ostream_write_def empty_world_def
        return_by_move_def JsonLine_shl_logger [of _ "\<lparr>logger = 0\<rparr>", simplified]
        dec_int_5)

text \<open>
  Claim C4, as amended. A failed write of the sink is not reported: \<open>Output\<close> returns
  \<open>void\<close> and never looks at the stream, so with an even counter the destructor
  returns normally whatever the sink does. The failure shows only in the error state of
  the sink. The text of the record is offered to the sink once: a sink in the error
  state takes nothing, a sink with room for \<open>r\<close> characters takes the first \<open>r\<close>, and
  nothing is tried again. What the sink had accepted before stays in front, and the
  loggers are not touched.
\<close>

theorem C4_sink_failure_not_reported:
  assumes "elements (heap w (logger line)) mod 2 = 0"
  shows "fst (JsonLine_dtor line w) = Inr () \<and>
         heap (snd (JsonLine_dtor line w)) = heap w \<and>
         written (cout (snd (JsonLine_dtor line w))) =
           written (cout w) @
           (if badbit (cout w) then []
            else case room (cout w) of
              None \<Rightarrow> ''{'' @ oss (heap w (logger line)) @ ''}'' @ [CHR 0x0A]
            | Some r \<Rightarrow> take r (''{'' @ oss (heap w (logger line)) @ ''}'' @ [CHR 0x0A])) \<and>
         badbit (cout (snd (JsonLine_dtor line w))) =
           (badbit (cout w) \<or>
            (case room (cout w) of
               None \<Rightarrow> False
             | Some r \<Rightarrow> r < length (''{'' @ oss (heap w (logger line)) @ ''}'' @ [CHR 0x0A])))"
  using assms
  by (cases "room (cout w)")
     (simp_all add: JsonLine_dtor_def Output_cout Output_heap written_ostream_write
        badbit_ostream_write)

theorem C4_sink_failure_not_reported_witness:
  "fst (JsonLine_dtor \<lparr>logger = 0\<rparr>
          (snd (JsonLogger_line (\<lambda>d::unit. []) 0 5
             (empty_world\<lparr>cout := \<lparr>written = ''old'', badbit = False, room = Some 3\<rparr>\<rparr>)))) =
     Inr () \<and>
   written (cout (snd (JsonLine_dtor \<lparr>logger = 0\<rparr>
          (snd (JsonLogger_line (\<lambda>d::unit. []) 0 5
             (empty_world\<lparr>cout := \<lparr>written = ''old'', badbit = False, room = Some 3\<rparr>\<rparr>)))))) =
     ''old{'' @ [CHR 0x22] @ ''t'' \<and>
   badbit (cout (snd (JsonLine_dtor \<lparr>logger = 0\<rparr>
          (snd (JsonLogger_line (\<lambda>d::unit. []) 0 5
             (empty_world\<lparr>cout := \<lparr>written = ''old'', badbit = False, room = Some 3\<rparr>\<rparr>))))))"
proof -
  let ?w = "snd (JsonLogger_line (\<lambda>d::unit. []) 0 5
             (empty_world\<lparr>cout := \<lparr>written = ''old'', badbit = False, room = Some 3\<rparr>\<rparr>))"
  have even: "elements (heap ?w (logger \<lparr>logger = 0\<rparr>)) mod 2 = 0"
    by (simp add: JsonLogger_line_eq)
  from C4_sink_failure_not_reported [OF even]
  show ?thesis
    by (simp add: JsonLogger_line_eq empty_world_def)
qed

text \<open>
  Claim C4 as the spec states it fails: on a sink that was good and has no room left,
  the write of the record fails (the sink enters its error state), and the destructor
  still returns normally, with no error for its caller.
\<close>

theorem C4_sink_failure_counterexample:
  "\<not> badbit (cout (empty_world\<lparr>cout := \<lparr>written = ''old'', badbit = False, room = Some 0\<rparr>\<rparr>)) \<and>
   fst (JsonLine_dtor \<lparr>logger = 0\<rparr>
          (snd (JsonLogger_line (\<lambda>d::unit. []) 0 5
             (empty_world\<lparr>cout := \<lparr>written = ''old'', badbit = False, room = Some 0\<rparr>\<rparr>)))) =
     Inr () \<and>
   badbit (cout (snd (JsonLine_dtor \<lparr>logger = 0\<rparr>
          (snd (JsonLogger_line (\<lambda>d::unit. []) 0 5
             (empty_world\<lparr>cout := \<lparr>written = ''old'', badbit = False, room = Some 0\<rparr>\<rparr>))))))"
  by (simp add: JsonLogger_line_eq JsonLine_dtor_def Output_cout ostream_write_def
        empty_world_def)

text \<open>
  Claim C5. \<open>JsonLogger::line\<close> returns a line bound to this logger and leaves in the
  logger exactly the \<open>"ts"\<close> key, a colon and the clock reading in decimal, with the
  counter at 2: whatever the buffer and the counter held before is gone, and the other
  loggers and the sink are as they were. Nor does any other operation but \<open>Output\<close>
  touch the sink: \<open>PutSeparator\<close>, \<open>PutDecay\<close>, \<open>operator <<\<close> of the line and of
  the logger leave it as it is.
\<close>

theorem C5_line_starts_record:
  "JsonLogger_line fd this now w =
     (\<lparr>logger = this\<rparr>,
      w\<lparr>heap := (heap w)(this :=
           \<lparr>oss = [CHR 0x22] @ ''ts'' @ [CHR 0x22] @ '':'' @ dec_int (sint now),
            elements = 2\<rparr>)\<rparr>) \<and>
   cout (snd (JsonLogger_line fd this now w)) = cout w \<and>
   cout (PutSeparator line w) = cout w \<and>
   cout (PutDecay fd line t w) = cout w \<and>
   cout (JsonLine_shl fd line t w) = cout w \<and>
   cout (snd (JsonLogger_shl fd this now t w)) = cout w"
  by (simp add: JsonLogger_line_eq cout_PutSeparator Put_encode cout_oss_put
        cout_JsonLine_shl JsonLogger_shl_def del: PutDecay.simps)

text \<open>
  Claim C6. \<open>Put\<close> of a \<open>std::string\<close> writes a double quote, the characters each
  through the escaping table, and a double quote; \<open>Put\<close> of a C string does the same
  with the characters before its NUL. \<open>PutEscapedChar\<close> writes the table's entry:
  backslash, double quote, slash, backspace, form feed, newline, carriage return and tab
  become a backslash and a letter or the character, every other character is written as
  it is.
\<close>

theorem C6_text_is_quoted_and_escaped:
  "Put fd line (JString s) w =
     oss_put line ([CHR 0x22] @ concat (map escape s) @ [CHR 0x22]) w \<and>
   Put fd line (JCStr bs) w =
     oss_put line ([CHR 0x22] @ concat (map escape (c_str bs)) @ [CHR 0x22]) w \<and>
   PutEscapedChar line c w = oss_put line (escape c) w \<and>
   escape (CHR 0x5C) = [CHR 0x5C, CHR 0x5C] \<and>
   escape (CHR 0x22) = [CHR 0x5C, CHR 0x22] \<and>
   escape (CHR ''/'') = [CHR 0x5C, CHR ''/''] \<and>
   escape (CHR 0x08) = [CHR 0x5C, CHR ''b''] \<and>
   escape (CHR 0x0C) = [CHR 0x5C, CHR ''f''] \<and>
   escape (CHR 0x0A) = [CHR 0x5C, CHR ''n''] \<and>
   escape (CHR 0x0D) = [CHR 0x5C, CHR ''r''] \<and>
   escape (CHR 0x09) = [CHR 0x5C, CHR ''t''] \<and>
   (c \<notin> {CHR 0x5C, CHR 0x22, CHR ''/'', CHR 0x08, CHR 0x0C, CHR 0x0A, CHR 0x0D, CHR 0x09}
      \<longrightarrow> escape c = [c])"
  by (simp add: Put_encode quoted_def PutEscapedChar_escape) (simp add: escape_def escaping_table_def)

theorem C6_text_is_quoted_and_escaped_witness:
  "escape (CHR 0x01) = [CHR 0x01] \<and>
   PutEscapedChar \<lparr>logger = 0\<rparr> (CHR 0x01) empty_world =
     oss_put \<lparr>logger = 0\<rparr> [CHR 0x01] empty_world \<and>
   oss (heap (Put (\<lambda>d::unit. []) \<lparr>logger = 0\<rparr> (JString (''a/'' @ [CHR 0x01])) empty_world) 0) =
     [CHR 0x22] @ ''a'' @ [CHR 0x5C] @ ''/'' @ [CHR 0x01] @ [CHR 0x22]"
proof -
  have "CHR 0x01 \<notin> {CHR 0x5C, CHR 0x22, CHR ''/'', CHR 0x08, CHR 0x0C, CHR 0x0A, CHR 0x0D,
          CHR 0x09}"
    by simp
  with C6_text_is_quoted_and_escaped
         [of "\<lambda>d::unit. []" "\<lparr>logger = 0\<rparr>" "''a/'' @ [CHR 0x01]" empty_world "[]" "CHR 0x01"]
  show ?thesis
    by (simp add: oss_put_def empty_world_def escape_def escaping_table_def)
qed

text \<open>
  Claim C7, as amended. For every string that is well-formed UTF-8 and whose characters
  below 0x20 are all characters of the escaping table (which has backslash, double
  quote, newline and tab among its eight), decoding the text that \<open>Put\<close> writes gives
  the string back.
\<close>

theorem C7_escape_round_trip:
  assumes "well_formed_utf8 s"
    and "\<forall>c\<in>set s. c \<in> fst ` set escaping_table \<or> (0x20::nat) \<le> of_char c"
  shows "json_decode_string (Put_text fd (JString s)) = Some s"
  using assms by (simp add: Put_text_encode json_decode_string_quoted json_unescape_escape)

theorem C7_escape_round_trip_witness:
  "json_decode_string
     (Put_text (\<lambda>d::unit. [])
        (JString ([CHR 0x5C, CHR 0x22, CHR 0x0A, CHR 0x09] @ ''a/b'' @ [CHR 0xC3, CHR 0xA9]))) =
   Some ([CHR 0x5C, CHR 0x22, CHR 0x0A, CHR 0x09] @ ''a/b'' @ [CHR 0xC3, CHR 0xA9])"
proof -
  have wf: "well_formed_utf8
              ([CHR 0x5C, CHR 0x22, CHR 0x0A, CHR 0x09] @ ''a/b'' @ [CHR 0xC3, CHR 0xA9])"
    by (simp add: well_formed_utf8.simps(2) utf8_lead2_def utf8_cont_def)
  have "\<forall>c\<in>set ([CHR 0x5C, CHR 0x22, CHR 0x0A, CHR 0x09] @ ''a/b'' @ [CHR 0xC3, CHR 0xA9]).
          c \<in> fst ` set escaping_table \<or> (0x20::nat) \<le> of_char c"
    by (simp add: escaping_table_def)
  from C7_escape_round_trip [OF wf this] show ?thesis .
qed

text \<open>
  Claim C7 as the spec states it fails: the control character 0x01 is not in the
  escaping table, \<open>Put\<close> writes it as it is, and a JSON decoder rejects the text. The
  same holds for a byte that is not UTF-8, such as 0xFF.
\<close>

theorem C7_control_character_counterexample:
  "CHR 0x01 \<notin> fst ` set escaping_table \<and>
   json_decode_string (Put_text (\<lambda>d::unit. []) (JString [CHR 0x01])) = None \<and>
   CHR 0xFF \<notin> fst ` set escaping_table \<and>
   json_decode_string (Put_text (\<lambda>d::unit. []) (JString [CHR 0xFF])) = None"
  by (simp add: Put_text_encode json_decode_string_quoted escape_def escaping_table_def
        json_unescape.simps(2))


text \<open>
  Claim C9, as amended. \<open>Put\<close> of a \<open>double\<close> writes the text of the stream's
  default formatting (classic locale) and nothing else. For a finite value that is not
  zero this text is laid out from the sign, the value rounded to six significant
  decimal digits and its decimal exponent, and from nothing more. So all values with
  the same sign, six digits and exponent are written with the same text, and of two
  different values with the same text at most one can be what the text re-parses to,
  whatever the parser. A value that is an integer of at most six digits is written as
  the decimal digits of that integer, which denote the value again.
\<close>

theorem C9_double_text_has_six_digits:
  "Put ostream_double line (JDouble d) w = oss_put line (ostream_double d) w \<and>
   (double_finite_nonzero d \<longrightarrow>
      Put_text ostream_double (JDouble d) =
        (if fst (double_six_digits d) then ''-'' else []) @
        g_layout (snd (double_six_digits d))) \<and>
   (double_finite_nonzero d1 \<and> double_finite_nonzero d2 \<and>
    double_six_digits d1 = double_six_digits d2 \<longrightarrow>
      Put_text ostream_double (JDouble d1) = Put_text ostream_double (JDouble d2)) \<and>
   (Put_text ostream_double (JDouble d1) = Put_text ostream_double (JDouble d2) \<and> d1 \<noteq> d2 \<longrightarrow>
      \<not> (parse (Put_text ostream_double (JDouble d1)) = Some d1 \<and>
         parse (Put_text ostream_double (JDouble d2)) = Some d2)) \<and>
   (double_finite_nonzero d \<and> 0 < n \<and> n < 1000000 \<and>
    fst (double_magnitude d) = n * snd (double_magnitude d) \<longrightarrow>
      Put_text ostream_double (JDouble d) = (if double_sign d then ''-'' else []) @ dec_nat n \<and>
      digits_value (dec_nat n) = n)"
proof -
  have "double_finite_nonzero d \<Longrightarrow> 0 < n \<Longrightarrow> n < 1000000 \<Longrightarrow>
        fst (double_magnitude d) = n * snd (double_magnitude d) \<Longrightarrow>
        Put_text ostream_double (JDouble d) = (if double_sign d then ''-'' else []) @ dec_nat n"
    by (simp only: Put_text_encode encode.simps ostream_double_integer)
  then show ?thesis
    by (auto simp: Put_text_encode ostream_double_six_digits digits_value_dec_nat)
qed

theorem C9_double_text_has_six_digits_witness:
  "double_finite_nonzero 0x4132D68700000000 \<and>
   double_finite_nonzero 0x4132D68A00000000 \<and>
   double_six_digits 0x4132D68700000000 = double_six_digits 0x4132D68A00000000 \<and>
   Put_text ostream_double (JDouble 0x4132D68700000000) = ''1.23457e+06'' \<and>
   Put_text ostream_double (JDouble 0x4132D68A00000000) = ''1.23457e+06'' \<and>
   (0x4132D68700000000 :: 64 word) \<noteq> 0x4132D68A00000000 \<and>
   \<not> (Map.empty (Put_text ostream_double (JDouble 0x4132D68700000000)) =
        Some (0x4132D68700000000 :: 64 word) \<and>
      Map.empty (Put_text ostream_double (JDouble 0x4132D68A00000000)) =
        Some (0x4132D68A00000000 :: 64 word)) \<and>
   double_finite_nonzero 0x4045000000000000 \<and>
   fst (double_magnitude 0x4045000000000000) = 42 * snd (double_magnitude 0x4045000000000000) \<and>
   Put_text ostream_double (JDouble 0x4045000000000000) = ''42'' \<and>
   digits_value ''42'' = 42"
proof -
  note inst = C9_double_text_has_six_digits
         [of "\<lparr>logger = 0\<rparr>" "0x4132D68700000000" empty_world
             "0x4132D68700000000" "0x4132D68A00000000" Map.empty 1]
  note inst42 = C9_double_text_has_six_digits
         [of "\<lparr>logger = 0\<rparr>" "0x4045000000000000" empty_world
             "0x4132D68700000000" "0x4132D68A00000000" Map.empty 42]
  have fin: "double_finite_nonzero 0x4132D68700000000" "double_finite_nonzero 0x4132D68A00000000"
    by (rule six_1234567(2), rule six_1234570(2))
  have six: "double_six_digits 0x4132D68700000000 = double_six_digits 0x4132D68A00000000"
    by (simp add: six_1234567(1) six_1234570(1))
  have ne: "(0x4132D68700000000 :: 64 word) \<noteq> 0x4132D68A00000000"
    by simp
  from inst fin(1)
  have "Put_text ostream_double (JDouble 0x4132D68700000000) =
          (if fst (double_six_digits 0x4132D68700000000) then ''-'' else []) @
          g_layout (snd (double_six_digits 0x4132D68700000000))"
    by blast
  then have t1: "Put_text ostream_double (JDouble 0x4132D68700000000) = ''1.23457e+06''"
    by (simp add: six_1234567(1) layout_123457_6)
  from inst fin six
  have "Put_text ostream_double (JDouble 0x4132D68700000000) =
          Put_text ostream_double (JDouble 0x4132D68A00000000)"
    by blast
  with t1 have t2: "Put_text ostream_double (JDouble 0x4132D68A00000000) = ''1.23457e+06''"
    by simp
  from inst t1 t2 ne
  have np: "\<not> (Map.empty (Put_text ostream_double (JDouble 0x4132D68700000000)) =
             Some (0x4132D68700000000 :: 64 word) \<and>
           Map.empty (Put_text ostream_double (JDouble 0x4132D68A00000000)) =
             Some (0x4132D68A00000000 :: 64 word))"
    by simp
  have m42: "double_finite_nonzero 0x4045000000000000"
    "fst (double_magnitude 0x4045000000000000) = 42 * snd (double_magnitude 0x4045000000000000)"
    "double_sign 0x4045000000000000 = False"
    by (simp_all add: double_finite_nonzero_def double_sign_def double_exponent_def
          double_fraction_def double_magnitude_def Let_def)
  have d42: "dec_nat 42 = ''42''"
    by (simp add: dec_nat.simps digit_chars)
  have "(0::nat) < 42 \<and> (42::nat) < 1000000"
    by simp
  with inst42 m42(1,2)
  have "Put_text ostream_double (JDouble 0x4045000000000000) =
          (if double_sign 0x4045000000000000 then ''-'' else []) @ dec_nat 42 \<and>
        digits_value (dec_nat 42) = 42"
    by blast
  then have t42: "Put_text ostream_double (JDouble 0x4045000000000000) = ''42''"
    "digits_value ''42'' = 42"
    by (simp_all add: m42(3) d42)
  from fin six t1 t2 ne np m42(1,2) t42 show ?thesis
    by blast
qed

text \<open>
  Claim C9 as the spec states it fails: 1234567.0 (pattern 0x4132D68700000000) and
  1234570.0 (pattern 0x4132D68A00000000) are both written as \<open>1.23457e+06\<close>, so no
  parser gives every value back from its text.
\<close>

theorem C9_shared_text_counterexample:
  "Put_text ostream_double (JDouble 0x4132D68700000000) = ''1.23457e+06'' \<and>
   Put_text ostream_double (JDouble 0x4132D68A00000000) = ''1.23457e+06'' \<and>
   (0x4132D68700000000 :: 64 word) \<noteq> 0x4132D68A00000000 \<and>
   \<not> (\<exists>parse. \<forall>d. parse (Put_text ostream_double (JDouble d)) = Some d)"
proof -
  have t: "Put_text ostream_double (JDouble 0x4132D68700000000) = ''1.23457e+06''"
    "Put_text ostream_double (JDouble 0x4132D68A00000000) = ''1.23457e+06''"
    by (simp_all add: Put_text_encode text_1234567 text_1234570)
  have ne: "(0x4132D68700000000 :: 64 word) \<noteq> 0x4132D68A00000000"
    by simp
  have "\<not> (\<exists>parse. \<forall>d. parse (Put_text ostream_double (JDouble d)) = Some d)"
  proof
    assume "\<exists>parse. \<forall>d. parse (Put_text ostream_double (JDouble d)) = Some d"
    then obtain parse where p: "\<And>d. parse (Put_text ostream_double (JDouble d)) = Some d"
      by blast
    from p [of "0x4132D68700000000"] p [of "0x4132D68A00000000"] t ne
    show False by simp
  qed
  with t ne show ?thesis by blast
qed

text \<open>
  Claim C10. For a \<open>const char*\<close> and for a character array (which decays to the
  pointer) \<open>PutDecay\<close> writes, quoted and escaped, the characters before the first
  NUL; for a \<open>std::string\<close> it writes all characters. So with a NUL after \<open>pre\<close>, the
  C string and the array give \<open>pre\<close> only, the \<open>std::string\<close> gives \<open>pre\<close>, the NUL
  as it is and the rest.
\<close>

theorem C10_nul_truncates_c_strings_only:
  "PutDecay fd line (JCStr bs) w =
     oss_put line (quoted (takeWhile (\<lambda>c. c \<noteq> CHR 0x00) bs)) w \<and>
   PutDecay fd line (JCharArray bs) w =
     oss_put line (quoted (takeWhile (\<lambda>c. c \<noteq> CHR 0x00) bs)) w \<and>
   PutDecay fd line (JString s) w = oss_put line (quoted s) w \<and>
   (CHR 0x00 \<notin> set pre \<longrightarrow>
      Put_text fd (JCStr (pre @ CHR 0x00 # post)) = quoted pre \<and>
      Put_text fd (JCharArray (pre @ CHR 0x00 # post)) = quoted pre \<and>
      Put_text fd (JString (pre @ CHR 0x00 # post)) =
        [CHR 0x22] @ concat (map escape pre) @ [CHR 0x00] @ concat (map escape post) @
        [CHR 0x22])"
proof -
  have "CHR 0x00 \<notin> set pre \<Longrightarrow> c_str (pre @ CHR 0x00 # post) = pre"
    by (induction pre) (auto simp: c_str_def)
  moreover have "escape (CHR 0x00) = [CHR 0x00]"
    by (simp add: escape_def escaping_table_def)
  ultimately show ?thesis
    by (simp add: Put_encode Put_text_encode quoted_def c_str_def del: PutDecay.simps)
qed

theorem C10_nul_truncates_c_strings_only_witness:
  "Put_text (\<lambda>d::unit. []) (JCStr (''ab'' @ CHR 0x00 # ''cd'')) = [CHR 0x22] @ ''ab'' @ [CHR 0x22] \<and>
   Put_text (\<lambda>d::unit. []) (JCharArray (''ab'' @ CHR 0x00 # ''cd'')) =
     [CHR 0x22] @ ''ab'' @ [CHR 0x22] \<and>
   Put_text (\<lambda>d::unit. []) (JString (''ab'' @ CHR 0x00 # ''cd'')) =
     [CHR 0x22] @ ''ab'' @ [CHR 0x00] @ ''cd'' @ [CHR 0x22]"
proof -
  have "CHR 0x00 \<notin> set ''ab''" by simp
  with C10_nul_truncates_c_strings_only [of "\<lambda>d::unit. []" _ _ _ _ "''ab''" "''cd''"]
  show ?thesis
    by (simp add: quoted_def escape_def escaping_table_def)
qed

end
